theory Spec2Isabelle
  imports Complex_Main
begin

section \<open>JavaScript numbers and arrays\<close>

text \<open>
  A JavaScript \<open>number\<close> is modelled as an exact real number or one of the three special
  values \<open>Infinity\<close>, \<open>-Infinity\<close> and \<open>NaN\<close>. Rounding of finite results to 64-bit
  precision, overflow of finite results and the sign of zero are not modelled: finite
  arithmetic is exact, and a zero divisor is the positive zero. The special values follow
  IEEE 754, which is what the code relies on when it uses \<open>NaN\<close> as its marker of a
  missing value and when it divides by \<open>max - min\<close>.
\<close>

datatype number = Fin real | PInf | NInf | NaN

fun js_add :: "number \<Rightarrow> number \<Rightarrow> number" where
  "js_add NaN _ = NaN"
| "js_add _ NaN = NaN"
| "js_add (Fin a) (Fin b) = Fin (a + b)"
| "js_add PInf NInf = NaN"
| "js_add NInf PInf = NaN"
| "js_add PInf _ = PInf"
| "js_add _ PInf = PInf"
| "js_add NInf _ = NInf"
| "js_add _ NInf = NInf"

fun js_neg :: "number \<Rightarrow> number" where
  "js_neg (Fin a) = Fin (- a)"
| "js_neg PInf = NInf"
| "js_neg NInf = PInf"
| "js_neg NaN = NaN"

definition js_sub :: "number \<Rightarrow> number \<Rightarrow> number" where
  "js_sub a b = js_add a (js_neg b)"

fun js_mul :: "number \<Rightarrow> number \<Rightarrow> number" where
  "js_mul NaN _ = NaN"
| "js_mul _ NaN = NaN"
| "js_mul (Fin a) (Fin b) = Fin (a * b)"
| "js_mul (Fin a) PInf = (if a = 0 then NaN else if 0 < a then PInf else NInf)"
| "js_mul (Fin a) NInf = (if a = 0 then NaN else if 0 < a then NInf else PInf)"
| "js_mul PInf (Fin b) = (if b = 0 then NaN else if 0 < b then PInf else NInf)"
| "js_mul NInf (Fin b) = (if b = 0 then NaN else if 0 < b then NInf else PInf)"
| "js_mul PInf PInf = PInf"
| "js_mul NInf NInf = PInf"
| "js_mul PInf NInf = NInf"
| "js_mul NInf PInf = NInf"

fun js_div :: "number \<Rightarrow> number \<Rightarrow> number" where
  "js_div NaN _ = NaN"
| "js_div _ NaN = NaN"
| "js_div (Fin a) (Fin b) =
     (if b \<noteq> 0 then Fin (a / b)
      else if 0 < a then PInf else if a < 0 then NInf else NaN)"
| "js_div (Fin a) PInf = Fin 0"
| "js_div (Fin a) NInf = Fin 0"
| "js_div PInf (Fin b) = (if 0 \<le> b then PInf else NInf)"
| "js_div NInf (Fin b) = (if 0 \<le> b then NInf else PInf)"
| "js_div PInf PInf = NaN"
| "js_div PInf NInf = NaN"
| "js_div NInf PInf = NaN"
| "js_div NInf NInf = NaN"

text \<open>The comparisons \<open><\<close>, \<open>>\<close> and \<open>===\<close>: every comparison with \<open>NaN\<close> is false.\<close>

fun js_lt :: "number \<Rightarrow> number \<Rightarrow> bool" where
  "js_lt NaN _ = False"
| "js_lt _ NaN = False"
| "js_lt (Fin a) (Fin b) = (a < b)"
| "js_lt NInf NInf = False"
| "js_lt NInf _ = True"
| "js_lt PInf _ = False"
| "js_lt (Fin a) PInf = True"
| "js_lt (Fin a) NInf = False"

definition js_gt :: "number \<Rightarrow> number \<Rightarrow> bool" where
  "js_gt a b = js_lt b a"

fun js_eq :: "number \<Rightarrow> number \<Rightarrow> bool" where
  "js_eq NaN _ = False"
| "js_eq _ NaN = False"
| "js_eq a b = (a = b)"

fun Math_abs :: "number \<Rightarrow> number" where
  "Math_abs (Fin a) = Fin \<bar>a\<bar>"
| "Math_abs PInf = PInf"
| "Math_abs NInf = PInf"
| "Math_abs NaN = NaN"

text \<open>
  \<open>Math.min(...data)\<close> and \<open>Math.max(...data)\<close>: the result is \<open>NaN\<close> as soon as one
  argument is, and with no argument at all it is \<open>Infinity\<close> for \<open>Math.min\<close> and
  \<open>-Infinity\<close> for \<open>Math.max\<close>.
\<close>

definition min2 :: "number \<Rightarrow> number \<Rightarrow> number" where
  "min2 a b = (if a = NaN \<or> b = NaN then NaN else if js_lt b a then b else a)"

definition max2 :: "number \<Rightarrow> number \<Rightarrow> number" where
  "max2 a b = (if a = NaN \<or> b = NaN then NaN else if js_lt a b then b else a)"

definition Math_min :: "number list \<Rightarrow> number" where
  "Math_min xs = foldl min2 PInf xs"

definition Math_max :: "number list \<Rightarrow> number" where
  "Math_max xs = foldl max2 NInf xs"

text \<open>
  \<open>Array.prototype.slice(start, end)\<close> on integer arguments: a negative index counts from
  the end of the array, and both indices are clamped to the array.
\<close>

definition js_slice :: "'a list \<Rightarrow> int \<Rightarrow> int \<Rightarrow> 'a list" where
  "js_slice xs start end =
     (let len = int (length xs);
          k = (if start < 0 then max (len + start) 0 else min start len);
          final = (if end < 0 then max (len + end) 0 else min end len)
      in take (nat (final - k)) (drop (nat k) xs))"

text \<open>\<open>slice(start)\<close>, with the end left out, runs to the end of the array.\<close>

definition js_slice_from :: "'a list \<Rightarrow> int \<Rightarrow> 'a list" where
  "js_slice_from xs start = js_slice xs start (int (length xs))"

text \<open>
  A counting loop \<open>for (let i = a; i < n; i++) body\<close> whose body updates the local
  variables \<open>s\<close>.
\<close>

function for_loop :: "nat \<Rightarrow> nat \<Rightarrow> (nat \<Rightarrow> 's \<Rightarrow> 's) \<Rightarrow> 's \<Rightarrow> 's" where
  "for_loop i n body s = (if i < n then for_loop (Suc i) n body (body i s) else s)"
  by pat_completeness auto
termination
  by (relation "measure (\<lambda>(i, n, body, s). n - i)") auto

text \<open>
  The exceptions. The two services throw plain \<open>Error\<close> objects told apart by their
  messages; there are no error classes in the code.
\<close>

datatype error =
    NotEnoughData      \<comment> \<open>\<open>Error('Not enough data to train the model')\<close>\<close>
  | ModelNotTrained    \<comment> \<open>\<open>Error('Model not trained yet')\<close>\<close>
  | TypeError          \<comment> \<open>\<open>reduce\<close> of an empty array with no initial value\<close>
  | LibraryError string \<comment> \<open>an exception thrown inside the tensor library\<close>

text \<open>
  A counting loop whose body may throw: the first exception ends the loop and is the
  result.
\<close>

function for_loop_throws ::
  "nat \<Rightarrow> nat \<Rightarrow> (nat \<Rightarrow> 's \<Rightarrow> error + 's) \<Rightarrow> 's \<Rightarrow> error + 's" where
  "for_loop_throws i n body s =
     (if i < n
      then (case body i s of Inl e \<Rightarrow> Inl e | Inr s' \<Rightarrow> for_loop_throws (Suc i) n body s')
      else Inr s)"
  by pat_completeness auto
termination
  by (relation "measure (\<lambda>(i, n, body, s). n - i)") auto

declare for_loop.simps [simp del] for_loop_throws.simps [simp del]

section \<open>The forecasting service (\<open>lstmService.ts\<close>)\<close>

subsection \<open>Scaler and sequence construction\<close>

record scaler =
  min_val :: number
  max_val :: number

text \<open>\<open>normalizeData\<close>: the minimum and maximum of the data, and the data scaled by them.\<close>

definition normalizeData :: "number list \<Rightarrow> number list \<times> scaler" where
  "normalizeData data =
     (let mn = Math_min data;
          mx = Math_max data;
          normalized = map (\<lambda>value. js_div (js_sub value mn) (js_sub mx mn)) data
      in (normalized, \<lparr>min_val = mn, max_val = mx\<rparr>))"

definition denormalizeData :: "number list \<Rightarrow> scaler \<Rightarrow> number list" where
  "denormalizeData normalizedData sc =
     map (\<lambda>value. js_add (js_mul value (js_sub (max_val sc) (min_val sc))) (min_val sc))
       normalizedData"

text \<open>
  \<open>createSequences\<close>: the loop runs \<open>i\<close> from \<open>lookback\<close> while \<open>i < data.length\<close>, pushing
  \<open>data.slice(i - lookback, i)\<close> to \<open>X\<close> and \<open>data[i]\<close> to \<open>y\<close>. Inside the loop
  \<open>i < data.length\<close>, so the read \<open>data[i]\<close> is in range. The look-back is a
  non-negative integer.
\<close>

definition createSequences :: "number list \<Rightarrow> nat \<Rightarrow> number list list \<times> number list" where
  "createSequences data lookback =
     for_loop lookback (length data)
       (\<lambda>i (X, y). (X @ [js_slice data (int i - int lookback) (int i)], y @ [data ! i]))
       ([], [])"

subsection \<open>The tensor library\<close>

text \<open>
  The network itself lives in the tensor library, which is not part of the repository.
  The service is therefore parameterised by it: \<open>tensors\<close> converts the training set
  (\<open>tf.tensor3d\<close>, \<open>tf.tensor2d\<close>), \<open>sequential\<close> is the compiled network that
  \<open>buildModel\<close> returns for an input length, \<open>fit\<close> trains a network in place and
  gives the network after the call together with the exception it threw, if any, and
  \<open>infer\<close> is one forward pass on one window (\<open>tf.tensor3d\<close>, \<open>model.predict\<close>,
  \<open>data()\<close> and the read of its first entry). Each of them may throw.
\<close>

record ('m, 't) backend =
  tensors :: "number list list \<Rightarrow> number list \<Rightarrow> error + 't"
  sequential :: "nat \<Rightarrow> 'm"
  fit :: "'m \<Rightarrow> 't \<Rightarrow> nat \<Rightarrow> 'm \<times> error option"
  infer :: "'m \<Rightarrow> number list \<Rightarrow> error + number"

definition buildModel :: "('m, 't) backend \<Rightarrow> nat \<Rightarrow> 'm" where
  "buildModel B inputShape = sequential B inputShape"

subsection \<open>The service and its two fields\<close>

record 'm LSTMService =
  model :: "'m option"
  scaler :: "scaler option"

definition fresh :: "'m LSTMService" where
  "fresh = \<lparr>model = None, scaler = None\<rparr>"

text \<open>
  \<open>trainModel\<close> returns the service after the call and either the exception thrown or
  nothing. The assignments to \<open>this.scaler\<close> and \<open>this.model\<close> happen where the source
  makes them, so an exception leaves the fields assigned before it.
\<close>

definition trainModel ::
  "('m, 't) backend \<Rightarrow> 'm LSTMService \<Rightarrow> number list \<Rightarrow> nat \<Rightarrow> nat
     \<Rightarrow> 'm LSTMService \<times> (error + unit)" where
  "trainModel B this prices epochs lookback =
     (let (normalized, sc) = normalizeData prices;
          this1 = this\<lparr>scaler := Some sc\<rparr>;
          (X, y) = createSequences normalized lookback
      in if length X = 0 then (this1, Inl NotEnoughData)
         else (case tensors B X y of
                 Inl e \<Rightarrow> (this1, Inl e)
               | Inr t \<Rightarrow>
                   (let (m, thrown) = fit B (buildModel B lookback) t epochs
                    in (this1\<lparr>model := Some m\<rparr>,
                        (case thrown of Some e \<Rightarrow> Inl e | None \<Rightarrow> Inr ())))))"


subsection \<open>Calendar dates\<close>

text \<open>
  A \<open>Date\<close> is modelled by its calendar day. The time of day is left out, and the local
  time zone is taken to be UTC, so that \<open>getDate\<close>/\<open>setDate\<close> (local time) and
  \<open>toISOString\<close> (UTC) speak of the same day. The months are numbered from 1.
\<close>

record jsdate =
  year :: int
  month :: nat
  day :: nat

definition leap_year :: "int \<Rightarrow> bool" where
  "leap_year y = (y mod 4 = 0 \<and> (y mod 100 \<noteq> 0 \<or> y mod 400 = 0))"

definition days_in_month :: "int \<Rightarrow> nat \<Rightarrow> nat" where
  "days_in_month y m =
     (if m = 2 then (if leap_year y then 29 else 28)
      else if m = 4 \<or> m = 6 \<or> m = 9 \<or> m = 11 then 30 else 31)"

text \<open>
  \<open>setDate(n)\<close> for a day number \<open>n \<ge> 1\<close>: a day number beyond the end of the month
  runs over into the following months.
\<close>

function make_day :: "int \<Rightarrow> nat \<Rightarrow> nat \<Rightarrow> jsdate" where
  "make_day y m n =
     (if n \<le> days_in_month y m then \<lparr>year = y, month = m, day = n\<rparr>
      else if m < 12 then make_day y (Suc m) (n - days_in_month y m)
      else make_day (y + 1) 1 (n - days_in_month y m))"
  by pat_completeness auto
termination
  by (relation "measure (\<lambda>(y, m, n). n)") (auto simp: days_in_month_def)

declare make_day.simps [simp del]

definition getDate :: "jsdate \<Rightarrow> nat" where
  "getDate d = day d"

definition setDate :: "jsdate \<Rightarrow> nat \<Rightarrow> jsdate" where
  "setDate d n = make_day (year d) (month d) n"

text \<open>\<open>toISOString().split('T')[0]\<close>: the date as \<open>YYYY-MM-DD\<close>.\<close>

definition digit :: "nat \<Rightarrow> char" where
  "digit n = ''0123456789'' ! (n mod 10)"

definition pad2 :: "nat \<Rightarrow> string" where
  "pad2 n = [digit (n div 10), digit n]"

definition pad4 :: "nat \<Rightarrow> string" where
  "pad4 n = [digit (n div 1000), digit (n div 100), digit (n div 10), digit n]"

definition pad6 :: "nat \<Rightarrow> string" where
  "pad6 n = [digit (n div 100000), digit (n div 10000)] @ pad4 n"

definition iso_date :: "jsdate \<Rightarrow> string" where
  "iso_date d =
     (if 0 \<le> year d \<and> year d \<le> 9999 then pad4 (nat (year d))
      else (if year d < 0 then ''-'' else ''+'') @ pad6 (nat \<bar>year d\<bar>))
     @ ''-'' @ pad2 (month d) @ ''-'' @ pad2 (day d)"

subsection \<open>Forecasting\<close>

record PredictionData =
  date :: string
  prediction :: number

text \<open>
  \<open>parseFloat(x.toFixed(2))\<close>: a finite number below \<open>10\<^sup>2\<^sup>1\<close> in absolute value is
  rounded to two decimals, a tie away from zero; every other number is returned as it is.
\<close>

fun toFixed2 :: "number \<Rightarrow> number" where
  "toFixed2 (Fin x) =
     (if 10 ^ 21 \<le> \<bar>x\<bar> then Fin x
      else Fin (sgn x * of_int \<lfloor>\<bar>x\<bar> * 100 + 1 / 2\<rfloor> / 100))"
| "toFixed2 v = v"

text \<open>
  The forecasting loop of \<open>predict\<close>. Its local variables are the list \<open>predictions\<close>
  and the window \<open>currentSequence\<close>.
\<close>

definition predict_step ::
  "('m, 't) backend \<Rightarrow> 'm \<Rightarrow> nat \<Rightarrow> number list \<times> number list
     \<Rightarrow> error + number list \<times> number list" where
  "predict_step B m i = (\<lambda>(predictions, currentSequence).
     (case infer B m currentSequence of
        Inl e \<Rightarrow> Inl e
      | Inr predictionValue \<Rightarrow>
          Inr (predictions @ [predictionValue],
               js_slice_from currentSequence 1 @ [predictionValue])))"

text \<open>
  \<open>predict\<close>. The current date, which the source reads from the clock with
  \<open>new Date()\<close>, is the argument \<open>lastDate\<close>. The look-back and the number of days
  are non-negative integers.
\<close>

definition predict ::
  "('m, 't) backend \<Rightarrow> jsdate \<Rightarrow> 'm LSTMService \<Rightarrow> number list \<Rightarrow> nat \<Rightarrow> nat
     \<Rightarrow> error + PredictionData list" where
  "predict B lastDate this prices lookback futureDays =
     (case (model this, scaler this) of
        (Some m, Some sc) \<Rightarrow>
          (let normalizedPrices =
                 map (\<lambda>price. js_div (js_sub price (min_val sc))
                                 (js_sub (max_val sc) (min_val sc))) prices;
               currentSequence = js_slice_from normalizedPrices (- int lookback)
           in case for_loop_throws 0 futureDays (predict_step B m) ([], currentSequence) of
                Inl e \<Rightarrow> Inl e
              | Inr (predictions, _) \<Rightarrow>
                  (let denormalizedPredictions = denormalizeData predictions sc
                   in Inr (for_loop 0 (length denormalizedPredictions)
                        (\<lambda>i predictionData. predictionData @
                           [\<lparr>date = iso_date (setDate lastDate (getDate lastDate + i + 1)),
                             prediction = toFixed2 (denormalizedPredictions ! i)\<rparr>])
                        [])))
      | _ \<Rightarrow> Inl ModelNotTrained)"

section \<open>The technical indicators of the stock service\<close>

record HistoricalPoint =
  date :: string
  price :: number
  volume :: number

text \<open>
  \<open>calculateMovingAverage\<close>. The period is an integer; \<open>reduce\<close> starts from the
  initial value \<open>0\<close>.
\<close>

definition calculateMovingAverage :: "HistoricalPoint list \<Rightarrow> int \<Rightarrow> number list" where
  "calculateMovingAverage data period =
     for_loop 0 (length data)
       (\<lambda>i ma.
          if int i < period - 1 then ma @ [NaN]
          else (let sum = foldl (\<lambda>acc point. js_add acc (price point)) (Fin 0)
                            (js_slice data (int i - period + 1) (int i + 1))
                in ma @ [js_div sum (Fin (of_int period))]))
       []"

text \<open>\<open>reduce((a, b) => a + b)\<close> has no initial value and throws on an empty array.\<close>

fun reduce_add :: "number list \<Rightarrow> error + number" where
  "reduce_add [] = Inl TypeError"
| "reduce_add (x # xs) = Inr (foldl js_add x xs)"

text \<open>
  \<open>calculateRSI\<close>. The first loop fills \<open>gains\<close> and \<open>losses\<close> from the price changes
  and reads \<open>data[i]\<close> and \<open>data[i - 1]\<close> with \<open>1 \<le> i < data.length\<close>; the second
  loop fills \<open>rsi\<close>; the result is \<open>rsi\<close> behind one more \<open>NaN\<close>.
\<close>

definition gains_losses :: "HistoricalPoint list \<Rightarrow> number list \<times> number list" where
  "gains_losses data =
     for_loop 1 (length data)
       (\<lambda>i (gains, losses).
          (let change = js_sub (price (data ! i)) (price (data ! (i - 1)))
           in (gains @ [if js_gt change (Fin 0) then change else Fin 0],
               losses @ [if js_lt change (Fin 0) then Math_abs change else Fin 0])))
       ([], [])"

definition rsi_value :: "number \<Rightarrow> number \<Rightarrow> number" where
  "rsi_value avgGain avgLoss =
     (if js_eq avgLoss (Fin 0) then Fin 100
      else (let rs = js_div avgGain avgLoss
            in js_sub (Fin 100) (js_div (Fin 100) (js_add (Fin 1) rs))))"

definition rsi_step ::
  "number list \<Rightarrow> number list \<Rightarrow> int \<Rightarrow> nat \<Rightarrow> number list \<Rightarrow> error + number list" where
  "rsi_step gains losses period i rsi =
     (if int i < period - 1 then Inr (rsi @ [NaN])
      else (case reduce_add (js_slice gains (int i - period + 1) (int i + 1)) of
              Inl e \<Rightarrow> Inl e
            | Inr sumGain \<Rightarrow>
                (case reduce_add (js_slice losses (int i - period + 1) (int i + 1)) of
                   Inl e \<Rightarrow> Inl e
                 | Inr sumLoss \<Rightarrow>
                     Inr (rsi @ [rsi_value (js_div sumGain (Fin (of_int period)))
                                           (js_div sumLoss (Fin (of_int period)))]))))"

definition calculateRSI :: "HistoricalPoint list \<Rightarrow> int \<Rightarrow> error + number list" where
  "calculateRSI data period =
     (let (gains, losses) = gains_losses data
      in case for_loop_throws 0 (length gains) (rsi_step gains losses period) [] of
           Inl e \<Rightarrow> Inl e
         | Inr rsi \<Rightarrow> Inr (NaN # rsi))"

section \<open>Notions used in the statements\<close>


definition point :: "real \<Rightarrow> HistoricalPoint" where
  "point x = \<lparr>HistoricalPoint.date = [], price = Fin x, volume = Fin 0\<rparr>"

text \<open>
  A stand-in for the tensor library, used to run the service on concrete inputs: training
  always succeeds and changes nothing, and the network's answer is the sum of its window.
\<close>

definition sum_backend :: "(unit, unit) backend" where
  "sum_backend =
     \<lparr>tensors = (\<lambda>X y. Inr ()),
      sequential = (\<lambda>inputShape. ()),
      fit = (\<lambda>m t epochs. (m, None)),
      infer = (\<lambda>m window. Inr (foldl js_add (Fin 0) window))\<rparr>"






text \<open>The last \<open>n\<close> elements of a list, or the whole list when it has fewer.\<close>

definition lastn :: "nat \<Rightarrow> 'a list \<Rightarrow> 'a list" where
  "lastn n xs = drop (length xs - n) xs"

text \<open>
  Normalizing a series with a given scaler, as \<open>predict\<close> does with the stored one, and
  the forecasts of a network that answers \<open>f w\<close> on every window \<open>w\<close>, started from a
  window and rolled forward \<open>n\<close> times.
\<close>

definition normalize_with :: "scaler \<Rightarrow> number list \<Rightarrow> number list" where
  "normalize_with sc prices =
     map (\<lambda>price. js_div (js_sub price (min_val sc)) (js_sub (max_val sc) (min_val sc))) prices"

fun rollout :: "(number list \<Rightarrow> number) \<Rightarrow> number list \<Rightarrow> nat \<Rightarrow> number list" where
  "rollout f w 0 = []"
| "rollout f w (Suc n) = f w # rollout f (drop 1 w @ [f w]) n"

text \<open>The forecast points that \<open>predict\<close> builds from the denormalized predictions.\<close>

definition forecast_points :: "jsdate \<Rightarrow> number list \<Rightarrow> PredictionData list" where
  "forecast_points lastDate values =
     map (\<lambda>i. \<lparr>PredictionData.date = iso_date (setDate lastDate (getDate lastDate + i + 1)),
                prediction = toFixed2 (values ! i)\<rparr>)
       [0..<length values]"

text \<open>
  Concrete inputs: the service as training with \<open>sum_backend\<close> on the prices
  \<open>[1, 2, 3, 4, 5]\<close> leaves it, and a price history of five days that ends on
  2024-01-10.
\<close>

definition trained_service :: "unit LSTMService" where
  "trained_service = \<lparr>model = Some (), scaler = Some \<lparr>min_val = Fin 1, max_val = Fin 5\<rparr>\<rparr>"

definition january_history :: "HistoricalPoint list" where
  "january_history =
     [\<lparr>HistoricalPoint.date = ''2024-01-06'', price = Fin 1, volume = Fin 1000\<rparr>,
      \<lparr>HistoricalPoint.date = ''2024-01-07'', price = Fin 2, volume = Fin 1000\<rparr>,
      \<lparr>HistoricalPoint.date = ''2024-01-08'', price = Fin 3, volume = Fin 1000\<rparr>,
      \<lparr>HistoricalPoint.date = ''2024-01-09'', price = Fin 4, volume = Fin 1000\<rparr>,
      \<lparr>HistoricalPoint.date = ''2024-01-10'', price = Fin 5, volume = Fin 1000\<rparr>]"

text \<open>
  For the bounds of the RSI: the numbers that are not negative (\<open>Infinity\<close> among them),
  the numbers that are \<open>NaN\<close> or lie between 0 and 100, and the average of the \<open>period\<close>
  entries of a list that end at index \<open>i\<close>, summed as \<open>reduce\<close> without initial value
  sums them.
\<close>

definition js_nonneg :: "number \<Rightarrow> bool" where
  "js_nonneg v = (case v of Fin x \<Rightarrow> 0 \<le> x | PInf \<Rightarrow> True | NInf \<Rightarrow> False | NaN \<Rightarrow> False)"

definition nan_or_percent :: "number \<Rightarrow> bool" where
  "nan_or_percent v =
     (case v of Fin x \<Rightarrow> 0 \<le> x \<and> x \<le> 100 | PInf \<Rightarrow> False | NInf \<Rightarrow> False | NaN \<Rightarrow> True)"

definition trailing_average :: "number list \<Rightarrow> int \<Rightarrow> nat \<Rightarrow> number" where
  "trailing_average xs period i =
     (let w = take (nat period) (drop (i + 1 - nat period) xs)
      in js_div (foldl js_add (hd w) (tl w)) (Fin (of_int period)))"


section \<open>Loops that only push\<close>

lemma for_loop_push:
  "for_loop i n (\<lambda>i acc. acc @ [f i]) acc = acc @ map f [i..<n]"
proof (induction "n - i" arbitrary: i acc)
  case 0
  then show ?case by (simp add: for_loop.simps)
next
  case (Suc d)
  then have lt: "i < n" and d: "d = n - Suc i" by arith+
  have "for_loop i n (\<lambda>i acc. acc @ [f i]) acc
      = for_loop (Suc i) n (\<lambda>i acc. acc @ [f i]) (acc @ [f i])"
    using lt by (subst for_loop.simps) simp
  also have "\<dots> = (acc @ [f i]) @ map f [Suc i..<n]"
    using Suc.hyps(1) [OF d] .
  finally show ?case using lt by (simp add: upt_conv_Cons)
qed

lemma for_loop_push2:
  "for_loop i n (\<lambda>i (X, y). (X @ [f i], y @ [g i])) (X, y)
     = (X @ map f [i..<n], y @ map g [i..<n])"
proof (induction "n - i" arbitrary: i X y)
  case 0
  then show ?case by (simp add: for_loop.simps)
next
  case (Suc d)
  then have lt: "i < n" and d: "d = n - Suc i" by arith+
  have "for_loop i n (\<lambda>i (X, y). (X @ [f i], y @ [g i])) (X, y)
      = for_loop (Suc i) n (\<lambda>i (X, y). (X @ [f i], y @ [g i])) (X @ [f i], y @ [g i])"
    using lt by (subst for_loop.simps) simp
  also have "\<dots> = ((X @ [f i]) @ map f [Suc i..<n], (y @ [g i]) @ map g [Suc i..<n])"
    using Suc.hyps(1) [OF d] .
  finally show ?case using lt by (simp add: upt_conv_Cons)
qed

section \<open>Sequence construction\<close>

lemma js_slice_window:
  "lookback \<le> i \<Longrightarrow> i \<le> length data \<Longrightarrow>
   js_slice data (int i - int lookback) (int i) = take lookback (drop (i - lookback) data)"
  by (simp add: js_slice_def Let_def nat_diff_distrib' min_def)

lemma createSequences_eq:
  "createSequences data lookback =
     (map (\<lambda>i. take lookback (drop (i - lookback) data)) [lookback..<length data],
      map (\<lambda>i. data ! i) [lookback..<length data])"
proof -
  have "createSequences data lookback =
     (map (\<lambda>i. js_slice data (int i - int lookback) (int i)) [lookback..<length data],
      map (\<lambda>i. data ! i) [lookback..<length data])"
    unfolding createSequences_def by (simp add: for_loop_push2)
  moreover have
    "map (\<lambda>i. js_slice data (int i - int lookback) (int i)) [lookback..<length data]
     = map (\<lambda>i. take lookback (drop (i - lookback) data)) [lookback..<length data]"
    by (rule map_cong) (auto simp: js_slice_window)
  ultimately show ?thesis by simp
qed

lemma createSequences_length:
  "length (fst (createSequences data lookback)) = length data - lookback"
  by (simp add: createSequences_eq)

text \<open>
  Claim C5. For every series and every look-back, \<open>createSequences\<close> returns, for the
  indices \<open>i = lookback, ..., length data - 1\<close> in this order, the window of the
  \<open>lookback\<close> values \<open>data[i - lookback], ..., data[i - 1]\<close> and the target \<open>data[i]\<close>.
  Every window has length \<open>lookback\<close>, there are as many targets as windows, and their
  number is \<open>max(0, length data - lookback)\<close>. On \<open>[1,2,3,4,5]\<close> with look-back 2 the
  windows are \<open>[[1,2],[2,3],[3,4]]\<close> and the targets \<open>[3,4,5]\<close>.
\<close>

theorem createSequences_windows_and_targets:
  "createSequences data lookback =
     (map (\<lambda>i. take lookback (drop (i - lookback) data)) [lookback..<length data],
      map (\<lambda>i. data ! i) [lookback..<length data])
   \<and> map length (fst (createSequences data lookback))
       = replicate (length data - lookback) lookback
   \<and> length (snd (createSequences data lookback))
       = length (fst (createSequences data lookback))
   \<and> int (length (fst (createSequences data lookback)))
       = max 0 (int (length data) - int lookback)
   \<and> createSequences [Fin 1, Fin 2, Fin 3, Fin 4, Fin 5] 2
       = ([[Fin 1, Fin 2], [Fin 2, Fin 3], [Fin 3, Fin 4]], [Fin 3, Fin 4, Fin 5])"
proof -
  have "map (\<lambda>i. length (take lookback (drop (i - lookback) data))) [lookback..<length data]
       = map (\<lambda>i. lookback) [lookback..<length data]"
    by (rule map_cong) auto
  then have windows: "map length (fst (createSequences data lookback))
       = replicate (length data - lookback) lookback"
    by (simp add: createSequences_eq comp_def map_replicate_const)
  have example: "createSequences [Fin 1, Fin 2, Fin 3, Fin 4, Fin 5] 2
       = ([[Fin 1, Fin 2], [Fin 2, Fin 3], [Fin 3, Fin 4]], [Fin 3, Fin 4, Fin 5])"
    by code_simp
  show ?thesis
    using windows example createSequences_eq [of data lookback]
    by (simp del: replicate_eq_replicate)
qed


section \<open>Moving average\<close>

lemma js_slice_trailing:
  "0 < period \<Longrightarrow> period - 1 \<le> int i \<Longrightarrow> i < length xs \<Longrightarrow>
   js_slice xs (int i - period + 1) (int i + 1)
     = take (nat period) (drop (i + 1 - nat period) xs)"
  by (auto simp: js_slice_def Let_def min_def max_def nat_diff_distrib' nat_add_distrib
           intro!: arg_cong2 [where f=take] arg_cong2 [where f=drop])








section \<open>Relative strength index\<close>

lemma for_loop_throws_push:
  assumes "\<And>i acc. i0 \<le> i \<Longrightarrow> i < n \<Longrightarrow> step i acc = Inr (acc @ [f i])"
  shows "for_loop_throws i0 n step acc = Inr (acc @ map f [i0..<n])"
  using assms
proof (induction "n - i0" arbitrary: i0 acc)
  case 0
  then show ?case by (simp add: for_loop_throws.simps)
next
  case (Suc d)
  then have lt: "i0 < n" and d: "d = n - Suc i0" by arith+
  have "for_loop_throws (Suc i0) n step (acc @ [f i0]) = Inr ((acc @ [f i0]) @ map f [Suc i0..<n])"
    by (rule Suc.hyps(1) [OF d]) (simp add: Suc.prems)
  then show ?case
    using lt Suc.prems [of i0 acc]
    by (subst for_loop_throws.simps) (simp add: upt_conv_Cons)
qed

lemma js_nonneg_add: "js_nonneg a \<Longrightarrow> js_nonneg b \<Longrightarrow> js_nonneg (js_add a b)"
  by (cases a; cases b) (auto simp: js_nonneg_def)

lemma js_nonneg_foldl:
  "js_nonneg a \<Longrightarrow> \<forall>x\<in>set xs. js_nonneg x \<Longrightarrow> js_nonneg (foldl js_add a xs)"
  by (induction xs arbitrary: a) (auto simp: js_nonneg_add)

lemma js_nonneg_div:
  "js_nonneg a \<Longrightarrow> 0 < p \<Longrightarrow> js_nonneg (js_div a (Fin p))"
  by (cases a) (auto simp: js_nonneg_def)

lemma js_nonneg_gain: "js_nonneg (if js_gt change (Fin 0) then change else Fin 0)"
  by (cases change) (auto simp: js_nonneg_def js_gt_def)

lemma js_nonneg_loss: "js_nonneg (if js_lt change (Fin 0) then Math_abs change else Fin 0)"
  by (cases change) (auto simp: js_nonneg_def)

lemma rsi_value_range:
  assumes "js_nonneg avgGain" and "js_nonneg avgLoss"
  shows "nan_or_percent (rsi_value avgGain avgLoss)"
proof (cases avgLoss)
  case (Fin l)
  with assms(2) have l: "0 \<le> l" by (simp add: js_nonneg_def)
  show ?thesis
  proof (cases "l = 0")
    case True
    with Fin show ?thesis by (simp add: rsi_value_def nan_or_percent_def)
  next
    case False
    with l have lpos: "0 < l" by simp
    show ?thesis
    proof (cases avgGain)
      case (Fin g)
      with assms(1) have g: "0 \<le> g" by (simp add: js_nonneg_def)
      have one: "1 \<le> 1 + g / l" using g lpos by simp
      then have "0 < 1 + g / l" by linarith
      have "100 / (1 + g / l) \<le> 100 / 1"
        by (rule divide_left_mono) (use one in simp_all)
      moreover have "0 \<le> 100 / (1 + g / l)"
        using \<open>0 < 1 + g / l\<close> by simp
      ultimately show ?thesis
        using Fin \<open>avgLoss = Fin l\<close> False \<open>0 < 1 + g / l\<close>
        by (simp add: rsi_value_def nan_or_percent_def js_sub_def Let_def)
    next
      case PInf
      with \<open>avgLoss = Fin l\<close> False l show ?thesis
        by (simp add: rsi_value_def nan_or_percent_def js_sub_def Let_def)
    qed (use assms(1) in \<open>simp_all add: js_nonneg_def\<close>)
  qed
next
  case PInf
  show ?thesis
  proof (cases avgGain)
    case (Fin g)
    with PInf show ?thesis
      by (simp add: rsi_value_def nan_or_percent_def js_sub_def Let_def)
  next
    case PInf
    with \<open>avgLoss = PInf\<close> show ?thesis
      by (simp add: rsi_value_def nan_or_percent_def js_sub_def Let_def)
  qed (use assms(1) in \<open>simp_all add: js_nonneg_def\<close>)
qed (use assms(2) in \<open>simp_all add: js_nonneg_def\<close>)

lemma rsi_value_no_loss: "js_eq avgLoss (Fin 0) \<Longrightarrow> rsi_value avgGain avgLoss = Fin 100"
  by (simp add: rsi_value_def)

lemma gains_losses_eq:
  "gains_losses data =
     (map (\<lambda>i. let change = js_sub (price (data ! i)) (price (data ! (i - 1)))
               in if js_gt change (Fin 0) then change else Fin 0) [1..<length data],
      map (\<lambda>i. let change = js_sub (price (data ! i)) (price (data ! (i - 1)))
               in if js_lt change (Fin 0) then Math_abs change else Fin 0) [1..<length data])"
  unfolding gains_losses_def Let_def by (simp add: for_loop_push2)

lemma gains_losses_length:
  "length (fst (gains_losses data)) = length data - 1"
  "length (snd (gains_losses data)) = length data - 1"
  by (simp_all add: gains_losses_eq)

lemma gains_losses_nonneg:
  "\<forall>x\<in>set (fst (gains_losses data)). js_nonneg x"
  "\<forall>x\<in>set (snd (gains_losses data)). js_nonneg x"
  unfolding gains_losses_eq Let_def fst_conv snd_conv set_map
  by (intro ballI, elim imageE, hypsubst, rule js_nonneg_gain)
     (intro ballI, elim imageE, hypsubst, rule js_nonneg_loss)

lemma reduce_add_nonempty: "w \<noteq> [] \<Longrightarrow> reduce_add w = Inr (foldl js_add (hd w) (tl w))"
  by (cases w) simp_all

lemma trailing_window_nonempty:
  "0 < period \<Longrightarrow> period - 1 \<le> int i \<Longrightarrow> i < length xs \<Longrightarrow>
   take (nat period) (drop (i + 1 - nat period) xs) \<noteq> []"
  by auto

lemma reduce_nonneg:
  "w \<noteq> [] \<Longrightarrow> \<forall>x\<in>set w. js_nonneg x \<Longrightarrow> js_nonneg (foldl js_add (hd w) (tl w))"
  by (cases w) (auto simp: js_nonneg_foldl)

lemma trailing_average_nonneg:
  assumes "0 < period" and "period - 1 \<le> int i" and "i < length xs"
    and "\<forall>x\<in>set xs. js_nonneg x"
  shows "js_nonneg (trailing_average xs period i)"
proof -
  let ?w = "take (nat period) (drop (i + 1 - nat period) xs)"
  have ne: "?w \<noteq> []" by (rule trailing_window_nonempty [OF assms(1-3)])
  have sub: "set ?w \<subseteq> set xs"
    by (meson set_take_subset set_drop_subset subset_trans)
  with assms(4) have all: "\<forall>x\<in>set ?w. js_nonneg x" by blast
  from assms(1) have "0 < real_of_int period" by simp
  from js_nonneg_div [OF reduce_nonneg [OF ne all] this] show ?thesis
    by (simp add: trailing_average_def Let_def)
qed

lemma rsi_step_eq:
  assumes "0 < period" and "i < length gains" and "length losses = length gains"
  shows "rsi_step gains losses period i rsi =
     Inr (rsi @ [if int i < period - 1 then NaN
                 else rsi_value (trailing_average gains period i)
                                (trailing_average losses period i)])"
proof (cases "int i < period - 1")
  case True
  then show ?thesis by (simp add: rsi_step_def)
next
  case False
  then have ge: "period - 1 \<le> int i" by simp
  have il: "i < length losses" using assms(2,3) by simp
  have g: "js_slice gains (int i - period + 1) (int i + 1)
         = take (nat period) (drop (i + 1 - nat period) gains)"
    by (rule js_slice_trailing [OF assms(1) ge assms(2)])
  have l: "js_slice losses (int i - period + 1) (int i + 1)
         = take (nat period) (drop (i + 1 - nat period) losses)"
    by (rule js_slice_trailing [OF assms(1) ge il])
  have rg: "reduce_add (js_slice gains (int i - period + 1) (int i + 1))
         = Inr (foldl js_add (hd (take (nat period) (drop (i + 1 - nat period) gains)))
                             (tl (take (nat period) (drop (i + 1 - nat period) gains))))"
    unfolding g
    by (rule reduce_add_nonempty [OF trailing_window_nonempty [OF assms(1) ge assms(2)]])
  have rl: "reduce_add (js_slice losses (int i - period + 1) (int i + 1))
         = Inr (foldl js_add (hd (take (nat period) (drop (i + 1 - nat period) losses)))
                             (tl (take (nat period) (drop (i + 1 - nat period) losses))))"
    unfolding l
    by (rule reduce_add_nonempty [OF trailing_window_nonempty [OF assms(1) ge il]])
  show ?thesis
    using False unfolding rsi_step_def rg rl trailing_average_def Let_def by simp
qed

lemma calculateRSI_eq:
  assumes "0 < period"
  shows "calculateRSI data period =
     Inr (NaN # map (\<lambda>i. if int i < period - 1 then NaN
                          else rsi_value (trailing_average (fst (gains_losses data)) period i)
                                         (trailing_average (snd (gains_losses data)) period i))
                  [0..<length data - 1])"
proof -
  obtain gains losses where gl: "gains_losses data = (gains, losses)"
    by (cases "gains_losses data")
  have lg: "length gains = length data - 1" and ll: "length losses = length gains"
    using gains_losses_length [of data] by (simp_all add: gl)
  have "for_loop_throws 0 (length gains) (rsi_step gains losses period) []
      = Inr ([] @ map (\<lambda>i. if int i < period - 1 then NaN
                          else rsi_value (trailing_average gains period i)
                                         (trailing_average losses period i))
                  [0..<length gains])"
    by (rule for_loop_throws_push) (simp add: rsi_step_eq [OF assms _ ll])
  then show ?thesis
    by (simp add: calculateRSI_def gl lg)
qed

text \<open>
  For every price list and every period \<open>> 0\<close>, \<open>calculateRSI\<close> returns a list whose
  length is that of the input, or 1 when the input is empty; every entry is \<open>NaN\<close> or
  lies between 0 and 100; and where the average loss over the trailing window is exactly
  0 the entry is exactly 100.
\<close>

lemma calculateRSI_properties:
  assumes "0 < period"
  shows "\<exists>rsi. calculateRSI data period = Inr rsi
     \<and> length rsi = max 1 (length data)
     \<and> (\<forall>v\<in>set rsi. nan_or_percent v)
     \<and> (\<forall>i<length data - 1. period - 1 \<le> int i \<longrightarrow>
           js_eq (trailing_average (snd (gains_losses data)) period i) (Fin 0) \<longrightarrow>
           rsi ! Suc i = Fin 100)"
proof -
  let ?g = "fst (gains_losses data)" and ?l = "snd (gains_losses data)"
  let ?f = "\<lambda>i. if int i < period - 1 then NaN
                 else rsi_value (trailing_average ?g period i) (trailing_average ?l period i)"
  let ?rsi = "NaN # map ?f [0..<length data - 1]"
  have eq: "calculateRSI data period = Inr ?rsi"
    by (rule calculateRSI_eq [OF assms])
  have len: "length ?rsi = max 1 (length data)"
    by (cases data) simp_all
  have entry: "nan_or_percent (?f i)" if "i < length data - 1" for i
  proof (cases "int i < period - 1")
    case True
    then show ?thesis by (simp add: nan_or_percent_def)
  next
    case False
    then have ge: "period - 1 \<le> int i" by simp
    have "js_nonneg (trailing_average ?g period i)"
      by (rule trailing_average_nonneg [OF assms ge _ gains_losses_nonneg(1)])
         (use that in \<open>simp add: gains_losses_length\<close>)
    moreover have "js_nonneg (trailing_average ?l period i)"
      by (rule trailing_average_nonneg [OF assms ge _ gains_losses_nonneg(2)])
         (use that in \<open>simp add: gains_losses_length\<close>)
    ultimately show ?thesis
      using False by (simp add: rsi_value_range)
  qed
  have range: "\<forall>v\<in>set ?rsi. nan_or_percent v"
  proof (intro ballI)
    fix v assume "v \<in> set ?rsi"
    then consider "v = NaN" | i where "i < length data - 1" and "v = ?f i"
      by (auto split del: if_split)
    then show "nan_or_percent v"
    proof cases
      case 1
      then show ?thesis by (simp add: nan_or_percent_def)
    next
      case 2
      with entry [of i] show ?thesis by (simp only:)
    qed
  qed
  have noloss: "\<forall>i<length data - 1. period - 1 \<le> int i \<longrightarrow>
           js_eq (trailing_average ?l period i) (Fin 0) \<longrightarrow> ?rsi ! Suc i = Fin 100"
    by (simp add: rsi_value_no_loss)
  from eq len range noloss show ?thesis by blast
qed

lemma calculateRSI_empty: "calculateRSI [] period = Inr [NaN]"
  by (simp add: calculateRSI_def gains_losses_eq for_loop_throws.simps)

text \<open>
  Claim C6 says that the RSI list is as long as the price list. On the empty price list
  \<open>calculateRSI\<close> returns the one-element list \<open>[NaN]\<close>: the \<open>NaN\<close> that stands for the
  first data point is added although there is none. \<open>calculateMovingAverage\<close> returns
  the empty list there.
\<close>

theorem calculateRSI_empty_history:
  "calculateRSI [] period = Inr [NaN]
   \<and> length [NaN] = Suc (length ([] :: HistoricalPoint list))
   \<and> calculateMovingAverage [] period = []"
  by (simp add: calculateRSI_empty calculateMovingAverage_def for_loop.simps)

section \<open>Training\<close>

lemma normalizeData_length [simp]: "length (fst (normalizeData data)) = length data"
  by (simp add: normalizeData_def Let_def)

lemma normalizeData_scaler:
  "snd (normalizeData data) = \<lparr>min_val = Math_min data, max_val = Math_max data\<rparr>"
  by (simp add: normalizeData_def Let_def)

lemma trainModel_short:
  assumes "length prices \<le> lookback"
  shows "trainModel B this prices epochs lookback
     = (this\<lparr>scaler := Some \<lparr>min_val = Math_min prices, max_val = Math_max prices\<rparr>\<rparr>,
        Inl NotEnoughData)"
  using assms
  by (simp add: trainModel_def normalizeData_def createSequences_eq Let_def)

lemma trainModel_long:
  assumes "lookback < length prices"
  shows "trainModel B this prices epochs lookback
     = (let (normalized, sc) = normalizeData prices;
            (X, y) = createSequences normalized lookback
        in case tensors B X y of
             Inl e \<Rightarrow> (this\<lparr>scaler := Some sc\<rparr>, Inl e)
           | Inr t \<Rightarrow>
               (let (m, thrown) = fit B (buildModel B lookback) t epochs
                in (this\<lparr>scaler := Some sc, model := Some m\<rparr>,
                    (case thrown of Some e \<Rightarrow> Inl e | None \<Rightarrow> Inr ()))))"
proof -
  have "length (fst (createSequences (fst (normalizeData prices)) lookback)) \<noteq> 0"
    using assms by (simp add: createSequences_length)
  then show ?thesis
    by (simp add: trainModel_def Let_def case_prod_beta)
qed

subsection \<open>A scaler whose maximum equals its minimum\<close>

lemma js_lt_trichotomy:
  "a \<noteq> NaN \<Longrightarrow> b \<noteq> NaN \<Longrightarrow> \<not> js_lt a b \<Longrightarrow> \<not> js_lt b a \<Longrightarrow> a = b"
  by (cases a; cases b) auto

lemma min2_lower:
  "min2 a x \<noteq> NaN \<Longrightarrow> \<not> js_lt (min2 a x) m \<Longrightarrow>
   a \<noteq> NaN \<and> x \<noteq> NaN \<and> \<not> js_lt a m \<and> \<not> js_lt x m"
  by (cases a; cases x; cases m) (auto simp: min2_def split: if_splits)

lemma max2_upper:
  "max2 a x \<noteq> NaN \<Longrightarrow> \<not> js_lt m (max2 a x) \<Longrightarrow>
   a \<noteq> NaN \<and> x \<noteq> NaN \<and> \<not> js_lt m a \<and> \<not> js_lt m x"
  by (cases a; cases x; cases m) (auto simp: max2_def split: if_splits)

lemma js_lt_irrefl [simp]: "\<not> js_lt a a"
  by (cases a) auto

lemma foldl_min2_lower:
  "foldl min2 a xs \<noteq> NaN \<Longrightarrow>
   a \<noteq> NaN \<and> \<not> js_lt a (foldl min2 a xs)
   \<and> (\<forall>x\<in>set xs. x \<noteq> NaN \<and> \<not> js_lt x (foldl min2 a xs))"
proof (induction xs arbitrary: a)
  case Nil
  then show ?case by simp
next
  case (Cons x xs)
  from Cons.prems have "foldl min2 (min2 a x) xs \<noteq> NaN" by simp
  from Cons.IH [OF this] have
    1: "min2 a x \<noteq> NaN" and 2: "\<not> js_lt (min2 a x) (foldl min2 (min2 a x) xs)"
    and 3: "\<forall>y\<in>set xs. y \<noteq> NaN \<and> \<not> js_lt y (foldl min2 (min2 a x) xs)"
    by blast+
  from min2_lower [OF 1 2] 3 show ?case by simp
qed

lemma foldl_max2_upper:
  "foldl max2 a xs \<noteq> NaN \<Longrightarrow>
   a \<noteq> NaN \<and> \<not> js_lt (foldl max2 a xs) a
   \<and> (\<forall>x\<in>set xs. x \<noteq> NaN \<and> \<not> js_lt (foldl max2 a xs) x)"
proof (induction xs arbitrary: a)
  case Nil
  then show ?case by simp
next
  case (Cons x xs)
  from Cons.prems have "foldl max2 (max2 a x) xs \<noteq> NaN" by simp
  from Cons.IH [OF this] have
    1: "max2 a x \<noteq> NaN" and 2: "\<not> js_lt (foldl max2 (max2 a x) xs) (max2 a x)"
    and 3: "\<forall>y\<in>set xs. y \<noteq> NaN \<and> \<not> js_lt (foldl max2 (max2 a x) xs) y"
    by blast+
  from max2_upper [OF 1 2] 3 show ?case by simp
qed

lemma js_eq_iff: "js_eq a b \<longleftrightarrow> a = b \<and> a \<noteq> NaN"
  by (cases a; cases b) auto

lemma degenerate_quotient:
  "v \<noteq> NaN \<Longrightarrow> js_div (js_sub v v) (js_sub v v) = NaN"
  by (cases v) (auto simp: js_sub_def)

lemma degenerate_constant:
  assumes "js_eq (Math_max data) (Math_min data)" and "x \<in> set data"
  shows "x = Math_min data"
proof -
  from assms(1) have eq: "Math_max data = Math_min data" and nn: "Math_min data \<noteq> NaN"
    by (auto simp: js_eq_iff)
  from nn have lo: "x \<noteq> NaN \<and> \<not> js_lt x (Math_min data)"
    using foldl_min2_lower [of PInf data] assms(2) by (simp add: Math_min_def)
  from nn eq have "foldl max2 NInf data \<noteq> NaN" by (simp add: Math_max_def)
  from foldl_max2_upper [OF this] assms(2) have "\<not> js_lt (Math_max data) x"
    by (simp add: Math_max_def)
  with lo nn eq show ?thesis
    by (auto intro: js_lt_trichotomy)
qed

lemma normalizeData_degenerate:
  assumes "js_eq (Math_max data) (Math_min data)"
  shows "fst (normalizeData data) = replicate (length data) NaN"
proof -
  have nn: "Math_min data \<noteq> NaN" and eq: "Math_max data = Math_min data"
    using assms by (auto simp: js_eq_iff)
  have "map (\<lambda>value. js_div (js_sub value (Math_min data))
                       (js_sub (Math_max data) (Math_min data))) data
      = map (\<lambda>value. NaN) data"
  proof (rule map_cong [OF refl])
    fix x assume "x \<in> set data"
    then have "x = Math_min data" by (rule degenerate_constant [OF assms])
    then show "js_div (js_sub x (Math_min data)) (js_sub (Math_max data) (Math_min data)) = NaN"
      using nn eq degenerate_quotient [of "Math_min data"] by simp
  qed
  then show ?thesis
    by (simp add: normalizeData_def Let_def map_replicate_const)
qed

subsection \<open>Training on too little data\<close>

text \<open>
  Claim C8. When the price list has at most \<open>lookback\<close> entries, the sequence data set
  built from it is empty and \<open>trainModel\<close> throws its error
  \<open>'Not enough data to train the model'\<close>.
\<close>

theorem trainModel_insufficient_data:
  "length prices \<le> lookback \<Longrightarrow>
   fst (createSequences (fst (normalizeData prices)) lookback) = []
   \<and> snd (trainModel B this prices epochs lookback) = Inl NotEnoughData"
  by (simp add: trainModel_short createSequences_eq)

theorem trainModel_insufficient_data_witness:
  "length [Fin 1, Fin 2] \<le> 2
   \<and> fst (createSequences (fst (normalizeData [Fin 1, Fin 2])) 2) = []
   \<and> snd (trainModel sum_backend fresh [Fin 1, Fin 2] 30 2) = Inl NotEnoughData"
  using trainModel_insufficient_data [of "[Fin 1, Fin 2]" 2 sum_backend fresh 30]
  by simp

subsection \<open>What fitting the scaler checks\<close>

text \<open>
  Claim C3 says that fitting the scaler fails on an empty series and on a constant one.
  The code does neither: \<open>normalizeData\<close> returns a scaler and a list on every input.
  On the constant series \<open>[5, 5, 5]\<close> it returns three \<open>NaN\<close> and training goes on to
  succeed; on the empty series it returns the bounds \<open>Infinity\<close> and \<open>-Infinity\<close>.
\<close>

theorem scaler_fit_counterexample:
  "normalizeData [] = ([], \<lparr>min_val = PInf, max_val = NInf\<rparr>)
   \<and> normalizeData [Fin 5, Fin 5, Fin 5]
       = ([NaN, NaN, NaN], \<lparr>min_val = Fin 5, max_val = Fin 5\<rparr>)
   \<and> trainModel sum_backend fresh [Fin 5, Fin 5, Fin 5] 30 1
       = (\<lparr>model = Some (), scaler = Some \<lparr>min_val = Fin 5, max_val = Fin 5\<rparr>\<rparr>, Inr ())"
  by code_simp

text \<open>
  Claim C3 as amended. \<open>normalizeData\<close> never fails. On the empty series it returns the
  empty list and the scaler with minimum \<open>Infinity\<close> and maximum \<open>-Infinity\<close>; training
  on the empty series then throws the not-enough-data error. Whenever the fitted maximum
  equals the minimum, every normalized value is \<open>NaN\<close>. A series longer than the
  look-back, constant or not, is handed to the tensor library, and the outcome of training
  is the library's.
\<close>

theorem scaler_fit_is_unchecked:
  "normalizeData [] = ([], \<lparr>min_val = PInf, max_val = NInf\<rparr>)
   \<and> snd (trainModel B this [] epochs lookback) = Inl NotEnoughData
   \<and> (js_eq (Math_max data) (Math_min data) \<longrightarrow>
        normalizeData data
          = (replicate (length data) NaN,
             \<lparr>min_val = Math_min data, max_val = Math_max data\<rparr>))
   \<and> (lookback < length data \<longrightarrow>
        trainModel B this data epochs lookback
          = (let (normalized, sc) = normalizeData data;
                 (X, y) = createSequences normalized lookback
             in case tensors B X y of
                  Inl e \<Rightarrow> (this\<lparr>scaler := Some sc\<rparr>, Inl e)
                | Inr t \<Rightarrow>
                    (let (m, thrown) = fit B (buildModel B lookback) t epochs
                     in (this\<lparr>scaler := Some sc, model := Some m\<rparr>,
                         (case thrown of Some e \<Rightarrow> Inl e | None \<Rightarrow> Inr ())))))"
proof -
  have a: "normalizeData [] = ([], \<lparr>min_val = PInf, max_val = NInf\<rparr>)"
    by (simp add: normalizeData_def Math_min_def Math_max_def)
  have b: "snd (trainModel B this [] epochs lookback) = Inl NotEnoughData"
    by (simp add: trainModel_short)
  have c: "normalizeData data
          = (replicate (length data) NaN,
             \<lparr>min_val = Math_min data, max_val = Math_max data\<rparr>)"
    if "js_eq (Math_max data) (Math_min data)"
    using normalizeData_degenerate [OF that] normalizeData_scaler [of data]
    by (simp add: prod_eq_iff)
  show ?thesis
    using a b c trainModel_long [of lookback data B this epochs] by blast
qed

theorem scaler_fit_is_unchecked_witness:
  "js_eq (Math_max [Fin 5, Fin 5, Fin 5]) (Math_min [Fin 5, Fin 5, Fin 5])
   \<and> normalizeData [Fin 5, Fin 5, Fin 5]
       = ([NaN, NaN, NaN], \<lparr>min_val = Fin 5, max_val = Fin 5\<rparr>)
   \<and> 1 < length [Fin 5, Fin 5, Fin 5]
   \<and> trainModel sum_backend fresh [Fin 5, Fin 5, Fin 5] 30 1
       = (\<lparr>model = Some (), scaler = Some \<lparr>min_val = Fin 5, max_val = Fin 5\<rparr>\<rparr>, Inr ())"
proof -
  let ?d = "[Fin 5, Fin 5, Fin 5]"
  have mm: "Math_max ?d = Fin 5" "Math_min ?d = Fin 5"
    by (simp_all add: Math_max_def Math_min_def max2_def min2_def)
  have h1: "js_eq (Math_max ?d) (Math_min ?d)"
    by (simp add: mm)
  have h2: "1 < length ?d" by simp
  note t = scaler_fit_is_unchecked [of sum_backend fresh 30 1 ?d]
  from t h1 have n: "normalizeData ?d = ([NaN, NaN, NaN], \<lparr>min_val = Fin 5, max_val = Fin 5\<rparr>)"
    by (simp add: mm numeral_3_eq_3)
  from t h2 have "trainModel sum_backend fresh ?d 30 1
          = (let (normalized, sc) = normalizeData ?d;
                 (X, y) = createSequences normalized 1
             in case tensors sum_backend X y of
                  Inl e \<Rightarrow> (fresh\<lparr>scaler := Some sc\<rparr>, Inl e)
                | Inr t \<Rightarrow>
                    (let (m, thrown) = fit sum_backend (buildModel sum_backend 1) t 30
                     in (fresh\<lparr>scaler := Some sc, model := Some m\<rparr>,
                         (case thrown of Some e \<Rightarrow> Inl e | None \<Rightarrow> Inr ()))))"
    by blast
  then have tr: "trainModel sum_backend fresh ?d 30 1
       = (\<lparr>model = Some (), scaler = Some \<lparr>min_val = Fin 5, max_val = Fin 5\<rparr>\<rparr>, Inr ())"
    by (simp add: n sum_backend_def fresh_def case_prod_beta)
  show ?thesis using h1 h2 n tr by blast
qed

section \<open>Normalization and its inverse in exact arithmetic\<close>

lemma normalizeData_normalize_with:
  "fst (normalizeData data) = normalize_with (snd (normalizeData data)) data"
  by (simp add: normalizeData_def normalize_with_def Let_def)

lemma foldl_min2_Fin: "foldl min2 (Fin a) (map Fin xs) = Fin (fold min xs a)"
  by (induction xs arbitrary: a) (auto simp: min2_def min_def)

lemma foldl_max2_Fin: "foldl max2 (Fin a) (map Fin xs) = Fin (fold max xs a)"
  by (induction xs arbitrary: a) (auto simp: max2_def max_def)

lemma Math_min_finite: "Math_min (map Fin (x # xs)) = Fin (fold min xs x)"
  by (simp add: Math_min_def min2_def foldl_min2_Fin)

lemma Math_max_finite: "Math_max (map Fin (x # xs)) = Fin (fold max xs x)"
  by (simp add: Math_max_def max2_def foldl_max2_Fin)

lemma denormalize_normalize_exact:
  assumes "min_val sc = Fin a" and "max_val sc = Fin b" and "a \<noteq> b"
  shows "denormalizeData (normalize_with sc (map Fin xs)) sc = map Fin xs"
  using assms
  by (simp add: denormalizeData_def normalize_with_def js_sub_def comp_def)

text \<open>
  In exact arithmetic, denormalizing the normalization of a series of finite numbers gives
  the series back whenever the fitted minimum and maximum differ. The rounding of 64-bit
  floating-point arithmetic, which the tolerance of claim C4 is about, is outside this
  model.
\<close>

lemma round_trip_exact:
  assumes "min_val (snd (normalizeData (map Fin xs))) \<noteq> max_val (snd (normalizeData (map Fin xs)))"
  shows "denormalizeData (fst (normalizeData (map Fin xs))) (snd (normalizeData (map Fin xs)))
       = map Fin xs"
proof (cases xs)
  case Nil
  then show ?thesis by (simp add: normalizeData_def denormalizeData_def)
next
  case (Cons x xs')
  have mn: "min_val (snd (normalizeData (map Fin xs))) = Fin (fold min xs' x)"
    and mx: "max_val (snd (normalizeData (map Fin xs))) = Fin (fold max xs' x)"
    using Math_min_finite [of x xs'] Math_max_finite [of x xs']
    by (simp_all add: normalizeData_scaler Cons)
  from assms mn mx have "fold min xs' x \<noteq> fold max xs' x" by simp
  from denormalize_normalize_exact [OF mn mx this, of xs] show ?thesis
    by (simp only: normalizeData_normalize_with)
qed

section \<open>Calendar arithmetic\<close>














section \<open>The forecasting loop\<close>

lemma js_slice_from_1: "js_slice_from w 1 = drop 1 w"
  by (cases w) (simp_all add: js_slice_from_def js_slice_def Let_def)

lemma js_slice_from_neg:
  "0 < L \<Longrightarrow> js_slice_from xs (- int L) = lastn L xs"
  by (auto simp: js_slice_from_def js_slice_def Let_def lastn_def max_def nat_diff_distrib')

lemma js_slice_from_zero: "js_slice_from xs (- int 0) = xs"
  by (simp add: js_slice_from_def js_slice_def Let_def)

lemma length_lastn: "length (lastn n xs) = min n (length xs)"
  by (simp add: lastn_def)

lemma lastn_all: "length xs \<le> n \<Longrightarrow> lastn n xs = xs"
  by (simp add: lastn_def)

lemma lastn_shift:
  assumes "length w = L" and "0 < L"
  shows "lastn L (w @ v # xs) = lastn L ((drop 1 w @ [v]) @ xs)"
proof -
  from assms obtain a w' where w: "w = a # w'" by (cases w) auto
  with assms have L: "L = Suc (length w')" by simp
  show ?thesis unfolding lastn_def w L by simp
qed

lemma lastn_predictions:
  "L \<le> k \<Longrightarrow> k \<le> length ps \<Longrightarrow> lastn L (xs @ take k ps) = take L (drop (k - L) ps)"
  by (simp add: lastn_def drop_take)

lemma predict_step_eq:
  "predict_step B m i (predictions, w) =
     (case infer B m w of Inl e \<Rightarrow> Inl e
      | Inr v \<Rightarrow> Inr (predictions @ [v], drop 1 w @ [v]))"
  by (simp add: predict_step_def js_slice_from_1 split: sum.splits)


lemma predict_loop_rollout:
  assumes "\<forall>w. length w = L \<longrightarrow> (\<exists>v. infer B m w = Inr v)" and "0 < L"
  shows "length w = L \<Longrightarrow>
     \<exists>ps. for_loop_throws i n (predict_step B m) (acc, w) = Inr (acc @ ps, lastn L (w @ ps))
        \<and> length ps = n - i
        \<and> (\<forall>k<n - i. infer B m (lastn L (w @ take k ps)) = Inr (ps ! k))"
proof (induction "n - i" arbitrary: i acc w)
  case 0
  then show ?case by (simp add: for_loop_throws.simps lastn_all)
next
  case (Suc d)
  then have lt: "i < n" and d: "d = n - Suc i" by arith+
  from assms(1) Suc.prems obtain v where v: "infer B m w = Inr v" by blast
  have len: "length (drop 1 w @ [v]) = L"
    using Suc.prems assms(2) by simp
  from Suc.hyps(1) [OF d len, of "acc @ [v]"] obtain ps where
    run: "for_loop_throws (Suc i) n (predict_step B m) (acc @ [v], drop 1 w @ [v])
            = Inr ((acc @ [v]) @ ps, lastn L ((drop 1 w @ [v]) @ ps))"
    and lps: "length ps = n - Suc i"
    and steps: "\<forall>k<n - Suc i. infer B m (lastn L ((drop 1 w @ [v]) @ take k ps)) = Inr (ps ! k)"
    by blast
  have shift: "lastn L (w @ v # xs) = lastn L ((drop 1 w @ [v]) @ xs)" for xs
    by (rule lastn_shift [OF Suc.prems assms(2)])
  have "for_loop_throws i n (predict_step B m) (acc, w)
      = Inr (acc @ v # ps, lastn L (w @ v # ps))"
    using lt v run by (subst for_loop_throws.simps) (simp add: predict_step_eq shift)
  moreover have "length (v # ps) = n - i"
    using lps lt by simp
  moreover have "\<forall>k<n - i. infer B m (lastn L (w @ take k (v # ps))) = Inr ((v # ps) ! k)"
  proof (intro allI impI)
    fix k assume k: "k < n - i"
    show "infer B m (lastn L (w @ take k (v # ps))) = Inr ((v # ps) ! k)"
    proof (cases k)
      case 0
      then show ?thesis using v Suc.prems by (simp add: lastn_all)
    next
      case (Suc k')
      with k have "k' < n - Suc i" by simp
      with steps Suc show ?thesis by (simp add: shift)
    qed
  qed
  ultimately show ?case by blast
qed

lemma predict_loop_total:
  assumes "\<forall>w. infer B m w = Inr (f w)"
  shows "\<exists>w'. for_loop_throws i n (predict_step B m) (acc, w)
     = Inr (acc @ rollout f w (n - i), w')"
proof (induction "n - i" arbitrary: i acc w)
  case 0
  then show ?case by (simp add: for_loop_throws.simps)
next
  case (Suc d)
  then have lt: "i < n" and d: "d = n - Suc i" and S: "n - i = Suc (n - Suc i)" by arith+
  from Suc.hyps(1) [OF d, of "acc @ [f w]" "drop 1 w @ [f w]"] obtain w' where
    "for_loop_throws (Suc i) n (predict_step B m) (acc @ [f w], drop 1 w @ [f w])
       = Inr ((acc @ [f w]) @ rollout f (drop 1 w @ [f w]) (n - Suc i), w')"
    by blast
  then have "for_loop_throws i n (predict_step B m) (acc, w)
       = Inr (acc @ rollout f w (n - i), w')"
    using lt assms by (subst for_loop_throws.simps) (simp add: predict_step_eq S)
  then show ?case by blast
qed

lemma length_rollout [simp]: "length (rollout f w n) = n"
  by (induction n arbitrary: w) auto

lemma predict_dates_loop:
  "for_loop 0 (length vs)
     (\<lambda>i predictionData. predictionData @
        [\<lparr>PredictionData.date = iso_date (setDate lastDate (getDate lastDate + i + 1)),
          prediction = toFixed2 (vs ! i)\<rparr>]) []
   = forecast_points lastDate vs"
  by (simp add: for_loop_push forecast_points_def)

lemma predict_unfold:
  assumes "model this = Some m" and "scaler this = Some sc"
  shows "predict B lastDate this prices lookback futureDays =
     (case for_loop_throws 0 futureDays (predict_step B m)
             ([], js_slice_from (normalize_with sc prices) (- int lookback)) of
        Inl e \<Rightarrow> Inl e
      | Inr (predictions, w) \<Rightarrow> Inr (forecast_points lastDate (denormalizeData predictions sc)))"
  unfolding predict_def Let_def predict_dates_loop normalize_with_def [symmetric]
  using assms by (simp split: sum.splits prod.splits)

lemma predict_total_model:
  assumes "model this = Some m" and "scaler this = Some sc"
    and "\<forall>w. infer B m w = Inr (f w)"
  shows "predict B lastDate this prices lookback futureDays =
     Inr (forecast_points lastDate
            (denormalizeData
               (rollout f (js_slice_from (normalize_with sc prices) (- int lookback)) futureDays)
               sc))"
proof -
  from predict_loop_total [OF assms(3), of 0 futureDays "[]"] obtain w' where
    "for_loop_throws 0 futureDays (predict_step B m)
        ([], js_slice_from (normalize_with sc prices) (- int lookback))
      = Inr (rollout f (js_slice_from (normalize_with sc prices) (- int lookback)) futureDays, w')"
    by auto
  then show ?thesis
    by (simp add: predict_unfold [OF assms(1,2)])
qed

lemma length_forecast_points [simp]: "length (forecast_points d vs) = length vs"
  by (simp add: forecast_points_def)

lemma length_denormalizeData [simp]: "length (denormalizeData ps sc) = length ps"
  by (simp add: denormalizeData_def)

lemma lastn_lastn_append: "lastn L (lastn L xs @ ys) = lastn L (xs @ ys)"
  by (cases "L \<le> length xs") (simp_all add: lastn_def add.commute)


lemma lastn_snoc:
  "0 < L \<Longrightarrow> L \<le> length xs \<Longrightarrow> lastn L (xs @ [v]) = drop 1 (lastn L xs) @ [v]"
  by (simp add: lastn_def Suc_diff_le)

lemma length_normalize_with [simp]: "length (normalize_with sc prices) = length prices"
  by (simp add: normalize_with_def)


section \<open>Forecasts\<close>

text \<open>
  Claim C1 as amended. Let the service hold a model and a scaler, let the look-back be
  positive and the history have at least \<open>lookback\<close> prices, and let the model answer on
  every window of length \<open>lookback\<close>. Then \<open>predict\<close> returns exactly \<open>futureDays\<close>
  points, built from predictions \<open>ps\<close> in normalized space such that: the input of step
  \<open>k\<close> is the last \<open>lookback\<close> values of the history normalized with the stored scaler
  followed by the predictions of the steps before \<open>k\<close> (for \<open>k = 0\<close> the last \<open>lookback\<close>
  normalized prices); each window is the one before it without its oldest element and
  with the new prediction appended; from step \<open>lookback\<close> on the input consists of the
  predictions \<open>k - lookback, ..., k - 1\<close> alone; and the values of the returned points are
  the predictions denormalized with the stored scaler and rounded to two decimals.
\<close>

theorem predict_iterative_rollout:
  assumes "model this = Some m" and "scaler this = Some sc"
    and "0 < lookback" and "lookback \<le> length prices"
    and "\<forall>w. length w = lookback \<longrightarrow> (\<exists>v. infer B m w = Inr v)"
  shows "\<exists>ps. length ps = futureDays
     \<and> (\<forall>k<futureDays.
           infer B m (lastn lookback (normalize_with sc prices @ take k ps)) = Inr (ps ! k))
     \<and> (\<forall>k<futureDays.
           lastn lookback (normalize_with sc prices @ take (Suc k) ps)
             = drop 1 (lastn lookback (normalize_with sc prices @ take k ps)) @ [ps ! k])
     \<and> (\<forall>k<futureDays. lookback \<le> k \<longrightarrow>
           lastn lookback (normalize_with sc prices @ take k ps)
             = take lookback (drop (k - lookback) ps))
     \<and> predict B lastDate this prices lookback futureDays
         = Inr (forecast_points lastDate (denormalizeData ps sc))
     \<and> length (forecast_points lastDate (denormalizeData ps sc)) = futureDays"
proof -
  let ?nh = "normalize_with sc prices"
  let ?init = "js_slice_from ?nh (- int lookback)"
  have init: "?init = lastn lookback ?nh"
    by (rule js_slice_from_neg [OF assms(3)])
  have len: "length ?init = lookback"
    using assms(4) by (simp add: init length_lastn)
  from predict_loop_rollout [OF assms(5) assms(3) len, of 0 futureDays "[]"]
  obtain ps where
    run: "for_loop_throws 0 futureDays (predict_step B m) ([], ?init)
            = Inr (ps, lastn lookback (?init @ ps))"
    and lps: "length ps = futureDays"
    and steps: "\<forall>k<futureDays. infer B m (lastn lookback (?init @ take k ps)) = Inr (ps ! k)"
    by auto
  have a: "\<forall>k<futureDays. infer B m (lastn lookback (?nh @ take k ps)) = Inr (ps ! k)"
    using steps by (simp add: init lastn_lastn_append)
  have b: "\<forall>k<futureDays. lastn lookback (?nh @ take (Suc k) ps)
             = drop 1 (lastn lookback (?nh @ take k ps)) @ [ps ! k]"
  proof (intro allI impI)
    fix k assume "k < futureDays"
    then have "take (Suc k) ps = take k ps @ [ps ! k]"
      using lps by (simp add: take_Suc_conv_app_nth)
    moreover have "lookback \<le> length (?nh @ take k ps)"
      using assms(4) by simp
    ultimately show "lastn lookback (?nh @ take (Suc k) ps)
             = drop 1 (lastn lookback (?nh @ take k ps)) @ [ps ! k]"
      using lastn_snoc [OF assms(3), of "?nh @ take k ps" "ps ! k"] by simp
  qed
  have c: "\<forall>k<futureDays. lookback \<le> k \<longrightarrow>
           lastn lookback (?nh @ take k ps) = take lookback (drop (k - lookback) ps)"
    using lps by (simp add: lastn_predictions)
  have d: "predict B lastDate this prices lookback futureDays
         = Inr (forecast_points lastDate (denormalizeData ps sc))"
    by (simp add: predict_unfold [OF assms(1,2)] run)
  have e: "length (forecast_points lastDate (denormalizeData ps sc)) = futureDays"
    by (simp add: lps)
  from lps a b c d e show ?thesis by blast
qed



section \<open>Evaluating the service on concrete inputs\<close>

lemmas date_eval = iso_date_def setDate_def getDate_def make_day.simps days_in_month_def
  leap_year_def pad2_def pad4_def pad6_def digit_def

lemma upt_0_2: "[0..<2] = [0, 1]" by (simp add: upt_rec)
lemma upt_0_3: "[0..<3] = [0, 1, 2]" by (simp add: upt_rec)
lemma upt_0_4: "[0..<4] = [0, 1, 2, 3]" by (simp add: upt_rec)

lemma sum_backend_infer: "\<forall>w. infer sum_backend m w = Inr (foldl js_add (Fin 0) w)"
  by (simp add: sum_backend_def)

lemma trained_service_fields:
  "model trained_service = Some ()"
  "scaler trained_service = Some \<lparr>min_val = Fin 1, max_val = Fin 5\<rparr>"
  by (simp_all add: trained_service_def)

lemma january_prices: "map price january_history = [Fin 1, Fin 2, Fin 3, Fin 4, Fin 5]"
  by (simp add: january_history_def)

lemma january_normalized:
  "normalize_with \<lparr>min_val = Fin 1, max_val = Fin 5\<rparr> [Fin 1, Fin 2, Fin 3, Fin 4, Fin 5]
     = [Fin 0, Fin (1 / 4), Fin (1 / 2), Fin (3 / 4), Fin 1]"
  by (simp add: normalize_with_def js_sub_def)





section \<open>Forecasts on concrete inputs\<close>



text \<open>
  Claim C1 speaks of every history. With the two prices \<open>[2, 3]\<close> and look-back 3 the
  initial window has two values only and the window keeps that length: after three
  steps it is \<open>[5/4, 2]\<close>, the predictions of steps 1 and 2, and the prediction \<open>3/4\<close>
  of step 0 is not in the input of step 3.
\<close>

theorem predict_short_history_counterexample:
  "length [Fin 2, Fin 3] < (3::nat)
   \<and> js_slice_from (normalize_with \<lparr>min_val = Fin 1, max_val = Fin 5\<rparr> [Fin 2, Fin 3]) (- int 3)
       = [Fin (1 / 4), Fin (1 / 2)]
   \<and> for_loop_throws 0 3 (predict_step sum_backend ()) ([], [Fin (1 / 4), Fin (1 / 2)])
       = Inr ([Fin (3 / 4), Fin (5 / 4), Fin 2], [Fin (5 / 4), Fin 2])
   \<and> Fin (3 / 4) \<notin> set [Fin (5 / 4), Fin 2]
   \<and> predict sum_backend \<lparr>year = 2024, month = 3, day = 5\<rparr> trained_service [Fin 2, Fin 3] 3 4
       = Inr [\<lparr>PredictionData.date = ''2024-03-06'', prediction = Fin 4\<rparr>,
              \<lparr>PredictionData.date = ''2024-03-07'', prediction = Fin 6\<rparr>,
              \<lparr>PredictionData.date = ''2024-03-08'', prediction = Fin 9\<rparr>,
              \<lparr>PredictionData.date = ''2024-03-09'', prediction = Fin 14\<rparr>]"
proof -
  have init: "js_slice_from (normalize_with \<lparr>min_val = Fin 1, max_val = Fin 5\<rparr> [Fin 2, Fin 3]) (- int 3)
       = [Fin (1 / 4), Fin (1 / 2)]"
    by (simp add: normalize_with_def js_sub_def js_slice_from_def js_slice_def)
  have loop: "for_loop_throws 0 3 (predict_step sum_backend ()) ([], [Fin (1 / 4), Fin (1 / 2)])
       = Inr ([Fin (3 / 4), Fin (5 / 4), Fin 2], [Fin (5 / 4), Fin 2])"
    by (simp add: for_loop_throws.simps predict_step_eq sum_backend_def)
  have roll: "rollout (foldl js_add (Fin 0)) [Fin (1 / 4), Fin (1 / 2)] 4
       = [Fin (3 / 4), Fin (5 / 4), Fin 2, Fin (13 / 4)]"
    by (simp add: eval_nat_numeral)
  have den: "denormalizeData [Fin (3 / 4), Fin (5 / 4), Fin 2, Fin (13 / 4)]
       \<lparr>min_val = Fin 1, max_val = Fin 5\<rparr> = [Fin 4, Fin 6, Fin 9, Fin 14]"
    by (simp add: denormalizeData_def js_sub_def)
  have pts: "forecast_points \<lparr>year = 2024, month = 3, day = 5\<rparr> [Fin 4, Fin 6, Fin 9, Fin 14]
       = [\<lparr>PredictionData.date = ''2024-03-06'', prediction = Fin 4\<rparr>,
          \<lparr>PredictionData.date = ''2024-03-07'', prediction = Fin 6\<rparr>,
          \<lparr>PredictionData.date = ''2024-03-08'', prediction = Fin 9\<rparr>,
          \<lparr>PredictionData.date = ''2024-03-09'', prediction = Fin 14\<rparr>]"
    apply (simp add: forecast_points_def upt_0_4 del: toFixed2.simps)
    apply (simp add: date_eval)
    done
  have pred: "predict sum_backend \<lparr>year = 2024, month = 3, day = 5\<rparr> trained_service [Fin 2, Fin 3] 3 4
       = Inr [\<lparr>PredictionData.date = ''2024-03-06'', prediction = Fin 4\<rparr>,
              \<lparr>PredictionData.date = ''2024-03-07'', prediction = Fin 6\<rparr>,
              \<lparr>PredictionData.date = ''2024-03-08'', prediction = Fin 9\<rparr>,
              \<lparr>PredictionData.date = ''2024-03-09'', prediction = Fin 14\<rparr>]"
    unfolding predict_total_model [OF trained_service_fields sum_backend_infer]
    by (simp only: init roll den pts)
  have notin: "Fin (3 / 4) \<notin> set [Fin (5 / 4), Fin 2]" by simp
  have short: "length [Fin 2, Fin 3] < (3::nat)" by simp
  from short init loop notin pred show ?thesis by blast
qed

lemma list3: "length ps = 3 \<Longrightarrow> ps = [ps ! 0, ps ! 1, ps ! 2]"
  by (cases ps; cases "tl ps"; cases "tl (tl ps)") auto

text \<open>The amended claim C1 on the January history, with look-back 2 and three steps.\<close>

theorem predict_iterative_rollout_witness:
  "(0::nat) < 2
   \<and> 2 \<le> length (map price january_history)
   \<and> predict sum_backend \<lparr>year = 2024, month = 3, day = 5\<rparr> trained_service
         (map price january_history) 2 3
       = Inr [\<lparr>PredictionData.date = ''2024-03-06'', prediction = Fin 8\<rparr>,
              \<lparr>PredictionData.date = ''2024-03-07'', prediction = Fin 12\<rparr>,
              \<lparr>PredictionData.date = ''2024-03-08'', prediction = Fin 19\<rparr>]"
proof -
  let ?sc = "\<lparr>min_val = Fin 1, max_val = Fin 5\<rparr>"
  let ?d = "\<lparr>year = 2024, month = 3, day = 5\<rparr>"
  let ?nh = "[Fin 0, Fin (1 / 4), Fin (1 / 2), Fin (3 / 4), Fin 1]"
  have pos: "(0::nat) < 2" by simp
  have long: "2 \<le> length (map price january_history)"
    by (simp add: january_history_def)
  have answers: "\<forall>w. length w = 2 \<longrightarrow> (\<exists>v. infer sum_backend () w = Inr v)"
    by (simp add: sum_backend_def)
  from predict_iterative_rollout
    [OF trained_service_fields pos long answers, of 3 ?d]
  obtain ps where len: "length ps = 3"
    and steps: "\<forall>k<3. infer sum_backend ()
                  (lastn 2 (normalize_with ?sc (map price january_history) @ take k ps))
                = Inr (ps ! k)"
    and result: "predict sum_backend ?d trained_service (map price january_history) 2 3
                = Inr (forecast_points ?d (denormalizeData ps ?sc))"
    by blast
  have nh: "normalize_with ?sc (map price january_history) = ?nh"
    by (simp only: january_prices january_normalized)
  have step: "k < 3 \<Longrightarrow> foldl js_add (Fin 0) (lastn 2 (?nh @ take k ps)) = ps ! k" for k
    using steps by (simp add: nh sum_backend_def)
  have p0: "ps ! 0 = Fin (7 / 4)"
    using step [of 0] by (simp add: lastn_def)
  have "take 1 ps = [ps ! 0]"
    using len by (cases ps) auto
  with step [of 1] p0 have p1: "ps ! 1 = Fin (11 / 4)"
    by (simp add: lastn_def len)
  have "take 2 ps = [ps ! 0, ps ! 1]"
    using len by (cases ps; cases "tl ps") auto
  with step [of 2] p0 p1 have p2: "ps ! 2 = Fin (9 / 2)"
    by (simp add: lastn_def len)
  from list3 [OF len] p0 p1 p2 have ps: "ps = [Fin (7 / 4), Fin (11 / 4), Fin (9 / 2)]"
    by simp
  have den: "denormalizeData ps ?sc = [Fin 8, Fin 12, Fin 19]"
    by (simp add: ps denormalizeData_def js_sub_def)
  have pts: "forecast_points ?d [Fin 8, Fin 12, Fin 19]
       = [\<lparr>PredictionData.date = ''2024-03-06'', prediction = Fin 8\<rparr>,
          \<lparr>PredictionData.date = ''2024-03-07'', prediction = Fin 12\<rparr>,
          \<lparr>PredictionData.date = ''2024-03-08'', prediction = Fin 19\<rparr>]"
    apply (simp add: forecast_points_def upt_0_3 del: toFixed2.simps)
    apply (simp add: date_eval)
    done
  from result have "predict sum_backend ?d trained_service (map price january_history) 2 3
       = Inr [\<lparr>PredictionData.date = ''2024-03-06'', prediction = Fin 8\<rparr>,
              \<lparr>PredictionData.date = ''2024-03-07'', prediction = Fin 12\<rparr>,
              \<lparr>PredictionData.date = ''2024-03-08'', prediction = Fin 19\<rparr>]"
    by (simp only: den pts)
  with pos long show ?thesis by blast
qed

section \<open>The life cycle of the service\<close>













text \<open>
  Claim C10. Training is not atomic. When the price list has at most \<open>lookback\<close>
  entries, \<open>trainModel\<close> throws, the stored scaler has by then been replaced by the
  minimum and maximum of that list, and the stored model is the one from before the call.
  A forecast after the failed call is therefore the forecast of the old model under the
  new scaler.
\<close>

theorem trainModel_failure_is_not_atomic:
  assumes "length prices \<le> lookback"
  shows "snd (trainModel B this prices epochs lookback) = Inl NotEnoughData
     \<and> scaler (fst (trainModel B this prices epochs lookback))
         = Some \<lparr>min_val = Math_min prices, max_val = Math_max prices\<rparr>
     \<and> model (fst (trainModel B this prices epochs lookback)) = model this
     \<and> predict B lastDate (fst (trainModel B this prices epochs lookback))
           history forecastLookback futureDays
         = predict B lastDate
             \<lparr>model = model this,
              scaler = Some \<lparr>min_val = Math_min prices, max_val = Math_max prices\<rparr>\<rparr>
             history forecastLookback futureDays"
proof -
  have eq: "this\<lparr>scaler := Some \<lparr>min_val = Math_min prices, max_val = Math_max prices\<rparr>\<rparr>
      = \<lparr>model = model this,
         scaler = Some \<lparr>min_val = Math_min prices, max_val = Math_max prices\<rparr>\<rparr>"
    by (cases this) simp
  show ?thesis
    unfolding trainModel_short [OF assms] fst_conv snd_conv eq by simp
qed

theorem trainModel_failure_is_not_atomic_witness:
  "length [Fin 3, Fin 7] \<le> 2
   \<and> trainModel sum_backend trained_service [Fin 3, Fin 7] 30 2
       = (\<lparr>model = Some (), scaler = Some \<lparr>min_val = Fin 3, max_val = Fin 7\<rparr>\<rparr>,
          Inl NotEnoughData)
   \<and> predict sum_backend \<lparr>year = 2024, month = 3, day = 5\<rparr>
         (fst (trainModel sum_backend trained_service [Fin 3, Fin 7] 30 2))
         (map price january_history) 2 2
       = Inr [\<lparr>PredictionData.date = ''2024-03-06'', prediction = Fin 6\<rparr>,
              \<lparr>PredictionData.date = ''2024-03-07'', prediction = Fin 8\<rparr>]"
proof -
  let ?d = "\<lparr>year = 2024, month = 3, day = 5\<rparr>"
  let ?sc = "\<lparr>min_val = Fin 3, max_val = Fin 7\<rparr>"
  let ?after = "trainModel sum_backend trained_service [Fin 3, Fin 7] 30 2"
  have short: "length [Fin 3, Fin 7] \<le> 2" by simp
  have mm: "Math_min [Fin 3, Fin 7] = Fin 3" "Math_max [Fin 3, Fin 7] = Fin 7"
    by (simp_all add: Math_min_def Math_max_def min2_def max2_def)
  note t = trainModel_failure_is_not_atomic
    [OF short, of sum_backend trained_service 30 ?d "map price january_history" 2 2]
  from t have thrown: "snd ?after = Inl NotEnoughData"
    and sc: "scaler (fst ?after) = Some ?sc"
    and m: "model (fst ?after) = Some ()"
    and p: "predict sum_backend ?d (fst ?after) (map price january_history) 2 2
          = predict sum_backend ?d \<lparr>model = Some (), scaler = Some ?sc\<rparr>
              (map price january_history) 2 2"
    by (simp_all add: mm trained_service_fields)
  have state: "?after = (\<lparr>model = Some (), scaler = Some ?sc\<rparr>, Inl NotEnoughData)"
    using thrown sc m by (cases ?after; cases "fst ?after") auto
  have nh: "js_slice_from (normalize_with ?sc [Fin 1, Fin 2, Fin 3, Fin 4, Fin 5]) (- int 2)
      = [Fin (1 / 4), Fin (1 / 2)]"
    by (simp add: normalize_with_def js_sub_def js_slice_from_def js_slice_def)
  have roll: "rollout (foldl js_add (Fin 0)) [Fin (1 / 4), Fin (1 / 2)] 2
      = [Fin (3 / 4), Fin (5 / 4)]"
    by (simp add: eval_nat_numeral)
  have den: "denormalizeData [Fin (3 / 4), Fin (5 / 4)] ?sc = [Fin 6, Fin 8]"
    by (simp add: denormalizeData_def js_sub_def)
  have pts: "forecast_points ?d [Fin 6, Fin 8]
      = [\<lparr>PredictionData.date = ''2024-03-06'', prediction = Fin 6\<rparr>,
         \<lparr>PredictionData.date = ''2024-03-07'', prediction = Fin 8\<rparr>]"
    apply (simp add: forecast_points_def upt_0_2 del: toFixed2.simps)
    apply (simp add: date_eval)
    done
  have "predict sum_backend ?d \<lparr>model = Some (), scaler = Some ?sc\<rparr>
          (map price january_history) 2 2
      = Inr [\<lparr>PredictionData.date = ''2024-03-06'', prediction = Fin 6\<rparr>,
             \<lparr>PredictionData.date = ''2024-03-07'', prediction = Fin 8\<rparr>]"
    unfolding predict_total_model
      [of "\<lparr>model = Some (), scaler = Some ?sc\<rparr>" "()" ?sc, OF _ _ sum_backend_infer, simplified]
    by (simp only: january_prices nh roll den pts)
  with p state short show ?thesis by simp
qed

end
